theory Spec2Isabelle
  imports Main "HOL-Library.Sublist"
begin

section \<open>The datetime server (src/index.ts)\<close>

text \<open>
  The program is a thin layer over the JavaScript runtime: \<^verbatim>\<open>Date\<close>, \<^verbatim>\<open>Number\<close>,
  \<^verbatim>\<open>String.prototype.replace\<close> and \<^verbatim>\<open>Intl.DateTimeFormat\<close>. The functions of
  \<^verbatim>\<open>src/index.ts\<close> are translated one by one in the section on the program; the
  built-ins they call are written out first, after ECMA-262 and ECMA-402. What the
  standards leave to the host (the timezone database, the environment, the clock, the
  hour cycle a 24-hour request resolves to, the text of an error message) is a field of
  the record \<open>runtime\<close>.

  A \<^verbatim>\<open>Date\<close> made by \<^verbatim>\<open>new Date()\<close> holds an integral time value, the milliseconds
  since 1970-01-01T00:00:00Z, of magnitude at most 8.64e15; it is an \<open>int\<close> here.
  JavaScript strings are lists of characters.
\<close>

subsection \<open>Numbers and strings of the runtime\<close>

text \<open>\<^verbatim>\<open>Number.prototype.toString()\<close> of an integral number below 1e21: the decimal
  digits, with a leading minus sign for a negative number.\<close>

definition digit_char :: "int \<Rightarrow> char" where
  "digit_char d = ''0123456789'' ! nat d"

function decimal_digits :: "int \<Rightarrow> string" where
  "decimal_digits n =
     (if n < 10 then [digit_char n] else decimal_digits (n div 10) @ [digit_char (n mod 10)])"
  by pat_completeness auto
termination
  by (relation "measure nat") auto

declare decimal_digits.simps [simp del]

definition number_toString :: "int \<Rightarrow> string" where
  "number_toString i = (if i < 0 then CHR ''-'' # decimal_digits (- i) else decimal_digits i)"

text \<open>Reading a decimal numeral back (\<^verbatim>\<open>Number(s)\<close> on an optional minus sign and
  digits); anything else is no number.\<close>

definition digit_val :: "char \<Rightarrow> int option" where
  "digit_val c =
     (let k = of_char c :: nat in if 48 \<le> k \<and> k \<le> 57 then Some (int k - 48) else None)"

fun digits_value :: "int \<Rightarrow> string \<Rightarrow> int option" where
  "digits_value acc [] = Some acc"
| "digits_value acc (c # cs) =
     (case digit_val c of None \<Rightarrow> None | Some d \<Rightarrow> digits_value (10 * acc + d) cs)"

definition parse_number :: "string \<Rightarrow> int option" where
  "parse_number s =
     (case s of
        [] \<Rightarrow> None
      | c # cs \<Rightarrow>
          if c = CHR ''-'' then (if cs = [] then None else map_option uminus (digits_value 0 cs))
          else digits_value 0 s)"

text \<open>\<^verbatim>\<open>Math.floor(t / 1000)\<close>: the quotient is computed in binary64. For an integral
  \<open>t\<close> of magnitude at most 8.64e15 a quotient that is not an integer is at least
  1/1000 away from the nearest one, more than the rounding error of the division (below
  2^-11), so the floor of the rounded quotient is the floor of the exact one: \<open>t div 1000\<close>,
  which rounds toward minus infinity on \<open>int\<close>.\<close>

definition Math_floor_div :: "int \<Rightarrow> int \<Rightarrow> int" where
  "Math_floor_div t k = t div k"

text \<open>\<^verbatim>\<open>x || d\<close> where \<open>x\<close> is a string or \<^verbatim>\<open>undefined\<close>: the empty string and
  \<^verbatim>\<open>undefined\<close> are falsy.\<close>

definition or_default :: "string option \<Rightarrow> string \<Rightarrow> string" where
  "or_default x d = (case x of None \<Rightarrow> d | Some v \<Rightarrow> if v = [] then d else v)"

text \<open>\<^verbatim>\<open>s.slice(-2)\<close>: the last two characters, the whole string when it is shorter.\<close>

definition slice_last2 :: "string \<Rightarrow> string" where
  "slice_last2 s = drop (length s - 2) s"

text \<open>Zero-padding to a width, as the numeric fields of a date are printed.\<close>

definition pad_left :: "nat \<Rightarrow> string \<Rightarrow> string" where
  "pad_left w s = replicate (w - length s) CHR ''0'' @ s"

definition pad2 :: "int \<Rightarrow> string" where
  "pad2 n = pad_left 2 (number_toString n)"

subsection \<open>Time values (ECMA-262, Date objects)\<close>

definition msPerDay :: int where "msPerDay = 86400000"
definition msPerHour :: int where "msPerHour = 3600000"
definition msPerMinute :: int where "msPerMinute = 60000"
definition msPerSecond :: int where "msPerSecond = 1000"

definition Day :: "int \<Rightarrow> int" where
  "Day t = t div msPerDay"

definition TimeWithinDay :: "int \<Rightarrow> int" where
  "TimeWithinDay t = t mod msPerDay"

definition DaysInYear :: "int \<Rightarrow> int" where
  "DaysInYear y =
     (if y mod 4 \<noteq> 0 then 365 else if y mod 100 \<noteq> 0 then 366
      else if y mod 400 \<noteq> 0 then 365 else 366)"

definition DayFromYear :: "int \<Rightarrow> int" where
  "DayFromYear y =
     365 * (y - 1970) + (y - 1969) div 4 - (y - 1901) div 100 + (y - 1601) div 400"

text \<open>ECMA-262 specifies \<open>YearFromTime t\<close> as the largest \<open>y\<close> whose year starts at or
  before \<open>t\<close>. It is computed from the mean length of a Gregorian year (146097 days in
  400 years), which is off by at most one year; \<open>YearFromTime_spec\<close> below proves that the
  result is the year the standard describes.\<close>

definition YearFromTime :: "int \<Rightarrow> int" where
  "YearFromTime t =
     (let d = Day t; y = 1970 + (400 * d) div 146097
      in if DayFromYear (y + 1) \<le> d then y + 1
         else if DayFromYear y \<le> d then y else y - 1)"

definition InLeapYear :: "int \<Rightarrow> int" where
  "InLeapYear t = (if DaysInYear (YearFromTime t) = 366 then 1 else 0)"

definition DayWithinYear :: "int \<Rightarrow> int" where
  "DayWithinYear t = Day t - DayFromYear (YearFromTime t)"

text \<open>Months are numbered from 0 (January) to 11.\<close>

definition MonthFromTime :: "int \<Rightarrow> int" where
  "MonthFromTime t =
     (let d = DayWithinYear t; l = InLeapYear t
      in if d < 31 then 0
         else if d < 59 + l then 1
         else if d < 90 + l then 2
         else if d < 120 + l then 3
         else if d < 151 + l then 4
         else if d < 181 + l then 5
         else if d < 212 + l then 6
         else if d < 243 + l then 7
         else if d < 273 + l then 8
         else if d < 304 + l then 9
         else if d < 334 + l then 10
         else 11)"

definition DateFromTime :: "int \<Rightarrow> int" where
  "DateFromTime t =
     (let d = DayWithinYear t; l = InLeapYear t; m = MonthFromTime t
      in if m = 0 then d + 1
         else if m = 1 then d - 30
         else if m = 2 then d - 58 - l
         else if m = 3 then d - 89 - l
         else if m = 4 then d - 119 - l
         else if m = 5 then d - 150 - l
         else if m = 6 then d - 180 - l
         else if m = 7 then d - 211 - l
         else if m = 8 then d - 242 - l
         else if m = 9 then d - 272 - l
         else if m = 10 then d - 303 - l
         else d - 333 - l)"

definition WeekDay :: "int \<Rightarrow> int" where
  "WeekDay t = (Day t + 4) mod 7"

definition HourFromTime :: "int \<Rightarrow> int" where
  "HourFromTime t = (t div msPerHour) mod 24"

definition MinFromTime :: "int \<Rightarrow> int" where
  "MinFromTime t = (t div msPerMinute) mod 60"

definition SecFromTime :: "int \<Rightarrow> int" where
  "SecFromTime t = (t div msPerSecond) mod 60"

definition msFromTime :: "int \<Rightarrow> int" where
  "msFromTime t = t mod msPerSecond"

text \<open>\<^verbatim>\<open>Date.prototype.toISOString()\<close>: the fields of the time value in UTC. A year from
  0 to 9999 is printed with four digits, any other year with a sign and six digits.\<close>

definition iso_year :: "int \<Rightarrow> string" where
  "iso_year y =
     (if 0 \<le> y \<and> y \<le> 9999 then pad_left 4 (number_toString y)
      else (if y < 0 then CHR ''-'' else CHR ''+'') # pad_left 6 (number_toString (abs y)))"

definition toISOString :: "int \<Rightarrow> string" where
  "toISOString t =
     iso_year (YearFromTime t) @ ''-'' @ pad2 (MonthFromTime t + 1) @ ''-'' @ pad2 (DateFromTime t)
     @ ''T'' @ pad2 (HourFromTime t) @ '':'' @ pad2 (MinFromTime t) @ '':'' @ pad2 (SecFromTime t)
     @ ''.'' @ pad_left 3 (number_toString (msFromTime t)) @ ''Z''"

subsection \<open>\<^verbatim>\<open>String.prototype.replace\<close> with a global pattern of literal characters\<close>

text \<open>\<open>GetSubstitution\<close> of ECMA-262 for a pattern without capture groups: in the
  replacement text \<^verbatim>\<open>$$\<close> stands for a dollar sign, \<^verbatim>\<open>$&\<close> for the matched text,
  a dollar sign followed by a backquote for the text before the match and by an apostrophe
  for the text after it; every other character stands for itself.\<close>

fun GetSubstitution :: "string \<Rightarrow> string \<Rightarrow> string \<Rightarrow> string \<Rightarrow> string" where
  "GetSubstitution matched pre post [] = []"
| "GetSubstitution matched pre post [c] = [c]"
| "GetSubstitution matched pre post (c # c' # r) =
     (if c \<noteq> CHR ''$'' then c # GetSubstitution matched pre post (c' # r)
      else if c' = CHR ''$'' then CHR ''$'' # GetSubstitution matched pre post r
      else if c' = CHR ''&'' then matched @ GetSubstitution matched pre post r
      else if c' = CHR 0x60 then pre @ GetSubstitution matched pre post r
      else if c' = CHR 0x27 then post @ GetSubstitution matched pre post r
      else c # GetSubstitution matched pre post (c' # r))"

text \<open>\<^verbatim>\<open>s.replace(/p/g, r)\<close> for a pattern \<open>p\<close> of literal characters: the matches are
  found from left to right, each search starting where the previous match ended.
  \<open>pre\<close> is the part of the subject already scanned. The patterns of the program
  are not empty.\<close>

fun replace_from :: "string \<Rightarrow> string \<Rightarrow> string \<Rightarrow> string \<Rightarrow> string" where
  "replace_from p r pre [] = []"
| "replace_from p r pre (c # s) =
     (if p \<noteq> [] \<and> prefix p (c # s)
      then GetSubstitution p pre (drop (length p) (c # s)) r
           @ replace_from p r (pre @ p) (drop (length p) (c # s))
      else c # replace_from p r (pre @ [c]) s)"

definition replace_global :: "string \<Rightarrow> string \<Rightarrow> string \<Rightarrow> string" where
  "replace_global p r s = replace_from p r [] s"

subsection \<open>The host and \<^verbatim>\<open>Intl.DateTimeFormat\<close> (ECMA-402)\<close>

datatype hour_cycle = H11 | H12 | H23 | H24

datatype js_error = RangeError string

text \<open>What the program takes from its host:
  \<^item> \<open>env\<close>: \<^verbatim>\<open>process.env\<close>;
  \<^item> \<open>clock\<close>: the time value \<^verbatim>\<open>new Date()\<close> reads;
  \<^item> \<open>hostTimeZone\<close>: \<^verbatim>\<open>Intl.DateTimeFormat().resolvedOptions().timeZone\<close>;
  \<^item> \<open>tzdb\<close>: the timezone database, giving for an identifier it knows the offset from
    UTC in milliseconds at an instant, and nothing for any other identifier;
  \<^item> \<open>rangeErrorMessage\<close>: the message of the \<^verbatim>\<open>RangeError\<close> raised for an identifier
    the database does not know;
  \<^item> \<open>hourCycle24\<close>: the hour cycle the locale en-US gets with \<^verbatim>\<open>hour12: false\<close>.
    The editions of ECMA-402 up to the 2023 one resolve it to h24 for a locale whose
    own cycle is h12, so that the hour after midnight is printed as 24; the later
    editions resolve it to h23. The image of the Dockerfile (node:20) carries an
    engine of the first kind;
  \<^item> \<open>dayPeriodSpace\<close>: the characters the en-US locale data puts before AM or PM
    (a space; the narrow no-break space U+202F from CLDR 42 on).\<close>

record runtime =
  env :: "string \<Rightarrow> string option"
  clock :: int
  hostTimeZone :: string
  tzdb :: "string \<Rightarrow> (int \<Rightarrow> int) option"
  rangeErrorMessage :: "string \<Rightarrow> string"
  hourCycle24 :: hour_cycle
  dayPeriodSpace :: string

datatype style = Numeric | TwoDigit | Short

text \<open>The fields of \<^verbatim>\<open>Intl.DateTimeFormatOptions\<close> the program sets.\<close>

record DateTimeFormatOptions =
  timeZone :: string
  weekday :: "style option"
  year :: "style option"
  month :: "style option"
  day :: "style option"
  hour :: "style option"
  minute :: "style option"
  second :: "style option"
  hour12 :: "bool option"

datatype field = FWeekday | FYear | FMonth | FDay | FHour | FMinute | FSecond | FDayPeriod

datatype item = Lit string | Fld field

text \<open>A part of \<^verbatim>\<open>formatToParts\<close>: its type and its text.\<close>

type_synonym part = "string \<times> string"

text \<open>The hour cycle: \<^verbatim>\<open>hour12\<close> overrides the cycle of the locale, which is h12 for
  en-US and en-CA.\<close>

definition resolve_hourCycle :: "runtime \<Rightarrow> DateTimeFormatOptions \<Rightarrow> hour_cycle" where
  "resolve_hourCycle rt opts =
     (case hour12 opts of None \<Rightarrow> H12 | Some True \<Rightarrow> H12 | Some False \<Rightarrow> hourCycle24 rt)"

text \<open>The patterns of the locale data for the option sets of the program:
  \<^verbatim>\<open>EEE, MMM d, y\<close> and \<^verbatim>\<open>MM/dd/y\<close> for en-US, \<^verbatim>\<open>y-MM-dd\<close> for en-CA, the time as
  hour, minute and second separated by colons, followed by the day period in a 12-hour
  cycle, and a date and a time joined by a comma and a space.\<close>

definition date_items :: "string \<Rightarrow> DateTimeFormatOptions \<Rightarrow> item list" where
  "date_items locale opts =
     (if year opts = None \<and> month opts = None \<and> day opts = None then []
      else if locale = ''en-CA'' then [Fld FYear, Lit ''-'', Fld FMonth, Lit ''-'', Fld FDay]
      else if month opts = Some Short
      then (if weekday opts = None then [] else [Fld FWeekday, Lit '', ''])
           @ [Fld FMonth, Lit '' '', Fld FDay, Lit '', '', Fld FYear]
      else [Fld FMonth, Lit ''/'', Fld FDay, Lit ''/'', Fld FYear])"

definition time_items :: "runtime \<Rightarrow> hour_cycle \<Rightarrow> DateTimeFormatOptions \<Rightarrow> item list" where
  "time_items rt hc opts =
     (if hour opts = None then []
      else [Fld FHour, Lit '':'', Fld FMinute, Lit '':'', Fld FSecond]
           @ (if hc = H11 \<or> hc = H12 then [Lit (dayPeriodSpace rt), Fld FDayPeriod] else []))"

definition pattern_items :: "runtime \<Rightarrow> string \<Rightarrow> DateTimeFormatOptions \<Rightarrow> item list" where
  "pattern_items rt locale opts =
     (let d = date_items locale opts; t = time_items rt (resolve_hourCycle rt opts) opts
      in if d = [] then t else if t = [] then d else d @ [Lit '', ''] @ t)"

definition weekday_names :: "string list" where
  "weekday_names = [''Sun'', ''Mon'', ''Tue'', ''Wed'', ''Thu'', ''Fri'', ''Sat'']"

definition month_names :: "string list" where
  "month_names = [''Jan'', ''Feb'', ''Mar'', ''Apr'', ''May'', ''Jun'',
                  ''Jul'', ''Aug'', ''Sep'', ''Oct'', ''Nov'', ''Dec'']"

text \<open>Without an era the Gregorian calendar prints the year of the era: the year 0 of
  the time value is the year 1 before the common era.\<close>

definition era_year :: "int \<Rightarrow> int" where
  "era_year y = (if y \<le> 0 then 1 - y else y)"

definition cycle_hour :: "hour_cycle \<Rightarrow> int \<Rightarrow> int" where
  "cycle_hour hc h =
     (case hc of
        H23 \<Rightarrow> h
      | H24 \<Rightarrow> (if h = 0 then 24 else h)
      | H11 \<Rightarrow> h mod 12
      | H12 \<Rightarrow> (if h mod 12 = 0 then 12 else h mod 12))"

definition numeric_text :: "style option \<Rightarrow> int \<Rightarrow> string" where
  "numeric_text st n = (if st = Some TwoDigit then pad2 (n mod 100) else number_toString n)"

text \<open>The text of a field at the local time value \<open>lt\<close> (the instant shifted by the
  offset of the zone). Minutes and seconds next to an hour have two digits.\<close>

definition field_text :: "hour_cycle \<Rightarrow> DateTimeFormatOptions \<Rightarrow> int \<Rightarrow> field \<Rightarrow> string" where
  "field_text hc opts lt f =
     (case f of
        FWeekday \<Rightarrow> weekday_names ! nat (WeekDay lt)
      | FYear \<Rightarrow> numeric_text (year opts) (era_year (YearFromTime lt))
      | FMonth \<Rightarrow> (if month opts = Some Short then month_names ! nat (MonthFromTime lt)
                    else numeric_text (month opts) (MonthFromTime lt + 1))
      | FDay \<Rightarrow> numeric_text (day opts) (DateFromTime lt)
      | FHour \<Rightarrow> numeric_text (hour opts) (cycle_hour hc (HourFromTime lt))
      | FMinute \<Rightarrow> pad2 (MinFromTime lt)
      | FSecond \<Rightarrow> pad2 (SecFromTime lt)
      | FDayPeriod \<Rightarrow> (if HourFromTime lt < 12 then ''AM'' else ''PM''))"

definition field_type :: "field \<Rightarrow> string" where
  "field_type f =
     (case f of
        FWeekday \<Rightarrow> ''weekday'' | FYear \<Rightarrow> ''year'' | FMonth \<Rightarrow> ''month'' | FDay \<Rightarrow> ''day''
      | FHour \<Rightarrow> ''hour'' | FMinute \<Rightarrow> ''minute'' | FSecond \<Rightarrow> ''second''
      | FDayPeriod \<Rightarrow> ''dayPeriod'')"

definition item_part :: "hour_cycle \<Rightarrow> DateTimeFormatOptions \<Rightarrow> int \<Rightarrow> item \<Rightarrow> part" where
  "item_part hc opts lt i =
     (case i of Lit s \<Rightarrow> (''literal'', s) | Fld f \<Rightarrow> (field_type f, field_text hc opts lt f))"

text \<open>\<^verbatim>\<open>new Intl.DateTimeFormat(locale, options).formatToParts(date)\<close>. The constructor
  raises a \<^verbatim>\<open>RangeError\<close> when the timezone is not in the database.\<close>

definition formatToParts ::
  "runtime \<Rightarrow> string \<Rightarrow> DateTimeFormatOptions \<Rightarrow> int \<Rightarrow> js_error + part list" where
  "formatToParts rt locale opts date =
     (case tzdb rt (timeZone opts) of
        None \<Rightarrow> Inl (RangeError (rangeErrorMessage rt (timeZone opts)))
      | Some offset \<Rightarrow>
          Inr (map (item_part (resolve_hourCycle rt opts) opts (date + offset date))
                 (pattern_items rt locale opts)))"

text \<open>\<^verbatim>\<open>date.toLocaleString(locale, options)\<close>, and \<^verbatim>\<open>toLocaleDateString\<close> and
  \<^verbatim>\<open>toLocaleTimeString\<close> when the options name the fields, as they do in the program:
  the texts of the parts, joined.\<close>

definition toLocaleString ::
  "runtime \<Rightarrow> string \<Rightarrow> DateTimeFormatOptions \<Rightarrow> int \<Rightarrow> js_error + string" where
  "toLocaleString rt locale opts date =
     (case formatToParts rt locale opts date of
        Inl e \<Rightarrow> Inl e
      | Inr parts \<Rightarrow> Inr (concat (map snd parts)))"

section \<open>The program\<close>

subsection \<open>Configuration (lines 37 to 42)\<close>

definition DATETIME_FORMAT :: "runtime \<Rightarrow> string" where
  "DATETIME_FORMAT rt = or_default (env rt ''DATETIME_FORMAT'') ''iso''"

definition DATE_FORMAT_STRING :: "runtime \<Rightarrow> string" where
  "DATE_FORMAT_STRING rt = or_default (env rt ''DATE_FORMAT_STRING'') ''YYYY-MM-DD HH:mm:ss''"

definition TIMEZONE :: "runtime \<Rightarrow> string" where
  "TIMEZONE rt = or_default (env rt ''TIMEZONE'') (hostTimeZone rt)"

subsection \<open>\<^verbatim>\<open>formatCustomDate\<close> (lines 143 to 174)\<close>

definition no_options :: "string \<Rightarrow> DateTimeFormatOptions" where
  "no_options tz =
     \<lparr>timeZone = tz, weekday = None, year = None, month = None, day = None,
      hour = None, minute = None, second = None, hour12 = None\<rparr>"

definition custom_options :: "string \<Rightarrow> DateTimeFormatOptions" where
  "custom_options tz =
     (no_options tz)\<lparr>year := Some Numeric, month := Some TwoDigit, day := Some TwoDigit,
       hour := Some TwoDigit, minute := Some TwoDigit, second := Some TwoDigit,
       hour12 := Some False\<rparr>"

text \<open>\<^verbatim>\<open>parts.forEach((part) => { partsMap[part.type] = part.value; })\<close>: a later part
  overwrites an earlier one of the same type.\<close>

definition partsMap_of :: "part list \<Rightarrow> (string \<Rightarrow> string option)" where
  "partsMap_of parts = fold (\<lambda>p m. m(fst p \<mapsto> snd p)) parts Map.empty"

definition substitute_tokens :: "(string \<Rightarrow> string option) \<Rightarrow> string \<Rightarrow> string" where
  "substitute_tokens partsMap formatString =
     replace_global ''ss'' (or_default (partsMap ''second'') [])
       (replace_global ''mm'' (or_default (partsMap ''minute'') [])
         (replace_global ''HH'' (or_default (partsMap ''hour'') [])
           (replace_global ''DD'' (or_default (partsMap ''day'') [])
             (replace_global ''MM'' (or_default (partsMap ''month'') [])
               (replace_global ''YY'' (slice_last2 (or_default (partsMap ''year'') []))
                 (replace_global ''YYYY'' (or_default (partsMap ''year'') []) formatString))))))"

definition formatCustomDate :: "runtime \<Rightarrow> int \<Rightarrow> string \<Rightarrow> string \<Rightarrow> js_error + string" where
  "formatCustomDate rt date formatString timezone =
     (case formatToParts rt ''en-US'' (custom_options timezone) date of
        Inl e \<Rightarrow> Inl e
      | Inr parts \<Rightarrow> Inr (substitute_tokens (partsMap_of parts) formatString))"

subsection \<open>\<^verbatim>\<open>formatDateTime\<close> (lines 93 to 140)\<close>

definition human_options :: "string \<Rightarrow> DateTimeFormatOptions" where
  "human_options tz =
     (no_options tz)\<lparr>weekday := Some Short, year := Some Numeric, month := Some Short,
       day := Some Numeric, hour := Some TwoDigit, minute := Some TwoDigit,
       second := Some TwoDigit, hour12 := Some True\<rparr>"

definition date_options :: "string \<Rightarrow> DateTimeFormatOptions" where
  "date_options tz =
     (no_options tz)\<lparr>year := Some Numeric, month := Some TwoDigit, day := Some TwoDigit\<rparr>"

definition time_options :: "string \<Rightarrow> DateTimeFormatOptions" where
  "time_options tz =
     (no_options tz)\<lparr>hour := Some TwoDigit, minute := Some TwoDigit, second := Some TwoDigit,
       hour12 := Some False\<rparr>"

definition formatDateTime :: "runtime \<Rightarrow> int \<Rightarrow> string \<Rightarrow> string \<Rightarrow> js_error + string" where
  "formatDateTime rt date format timezone =
     (if format = ''iso'' then Inr (toISOString date)
      else if format = ''unix'' then Inr (number_toString (Math_floor_div date 1000))
      else if format = ''unix_ms'' then Inr (number_toString date)
      else if format = ''human'' then toLocaleString rt ''en-US'' (human_options timezone) date
      else if format = ''date'' then toLocaleString rt ''en-CA'' (date_options timezone) date
      else if format = ''time'' then toLocaleString rt ''en-US'' (time_options timezone) date
      else if format = ''custom'' then formatCustomDate rt date (DATE_FORMAT_STRING rt) timezone
      else Inr (toISOString date))"

subsection \<open>The tool call handler (lines 182 to 242)\<close>

text \<open>The arguments of a call: absent, or an object whose fields are strings, as the
  input schemas of the two tools declare them. \<^verbatim>\<open>(args as any)?.f\<close> is \<^verbatim>\<open>undefined\<close>
  when the arguments or the field are absent.\<close>

type_synonym arguments = "(string \<Rightarrow> string option) option"

definition arg :: "arguments \<Rightarrow> string \<Rightarrow> string option" where
  "arg args f = (case args of None \<Rightarrow> None | Some obj \<Rightarrow> obj f)"

text \<open>The result of a call: the text of its one content item and the error flag.\<close>

record call_result =
  content :: string
  isError :: bool

definition effective_format :: "runtime \<Rightarrow> arguments \<Rightarrow> string" where
  "effective_format rt args = or_default (arg args ''format'') (DATETIME_FORMAT rt)"

definition effective_timezone :: "runtime \<Rightarrow> arguments \<Rightarrow> string" where
  "effective_timezone rt args = or_default (arg args ''timezone'') (TIMEZONE rt)"

text \<open>The \<^verbatim>\<open>try\<close> and \<^verbatim>\<open>catch\<close> around the formatting (lines 190 to 212): a string is
  returned as the content, an error as its message behind a fixed prefix, with the error
  flag set. Every error of the model is an instance of \<^verbatim>\<open>Error\<close>.\<close>

definition relay :: "js_error + string \<Rightarrow> call_result" where
  "relay r =
     (case r of
        Inr formattedDate \<Rightarrow> \<lparr>content = formattedDate, isError = False\<rparr>
      | Inl (RangeError message) \<Rightarrow>
          \<lparr>content = ''Error formatting date: '' @ message, isError = True\<rparr>)"

definition get_current_time :: "runtime \<Rightarrow> arguments \<Rightarrow> call_result" where
  "get_current_time rt args =
     (let format = effective_format rt args;
          timezone = effective_timezone rt args;
          now = clock rt
      in relay (formatDateTime rt now format timezone))"

definition get_timestamp :: "runtime \<Rightarrow> arguments \<Rightarrow> call_result" where
  "get_timestamp rt args =
     (let unit = or_default (arg args ''unit'') ''seconds'';
          now = clock rt;
          timestamp = (if unit = ''milliseconds'' then now else Math_floor_div now 1000)
      in \<lparr>content = number_toString timestamp, isError = False\<rparr>)"

definition call_tool :: "runtime \<Rightarrow> string \<Rightarrow> arguments \<Rightarrow> call_result" where
  "call_tool rt name args =
     (if name = ''get_current_time'' then get_current_time rt args
      else if name = ''get_timestamp'' then get_timestamp rt args
      else \<lparr>content = ''Unknown tool: '' @ name, isError = True\<rparr>)"

section \<open>The words of the specification\<close>

text \<open>The known format selectors.\<close>

definition known_selectors :: "string set" where
  "known_selectors = {''iso'', ''unix'', ''unix_ms'', ''human'', ''date'', ''time'', ''custom''}"

text \<open>The selectors that render local time and so consult the timezone.\<close>

definition zone_selectors :: "string set" where
  "zone_selectors = {''human'', ''date'', ''time'', ''custom''}"

text \<open>Whole seconds by truncation toward zero, as the specification words the
  \<^verbatim>\<open>unix\<close> selector.\<close>

definition truncated_seconds :: "int \<Rightarrow> int" where
  "truncated_seconds t = (if t < 0 then - ((- t) div 1000) else t div 1000)"

text \<open>The precedence of the configuration resolver: the value of the call when it is
  present and not empty, otherwise the default of the process when it is set and not
  empty, otherwise the built-in fallback.\<close>

definition resolve_field :: "string option \<Rightarrow> string option \<Rightarrow> string \<Rightarrow> string" where
  "resolve_field per_call process_default builtin =
     (case per_call of
        Some v \<Rightarrow>
          if v \<noteq> [] then v
          else (case process_default of Some d \<Rightarrow> if d \<noteq> [] then d else builtin | None \<Rightarrow> builtin)
      | None \<Rightarrow> (case process_default of Some d \<Rightarrow> if d \<noteq> [] then d else builtin | None \<Rightarrow> builtin))"

definition is_digit :: "char \<Rightarrow> bool" where
  "is_digit c = (c \<in> set ''0123456789'')"

text \<open>A string of decimal digits that is not empty, and a string of exactly two.\<close>

definition digits :: "string \<Rightarrow> bool" where
  "digits r = (r \<noteq> [] \<and> list_all is_digit r)"

definition two_digits :: "string \<Rightarrow> bool" where
  "two_digits s = (length s = 2 \<and> list_all is_digit s)"

text \<open>The token sub-formatter as the specification words it: the template is scanned
  once from left to right; where a token stands it is replaced by its component, the
  four-letter year token being tried before the two-letter one; any other character is
  emitted as it is.\<close>

record token_values =
  year_text :: string
  year2_text :: string
  month_text :: string
  day_text :: string
  hour_text :: string
  minute_text :: string
  second_text :: string

fun scan_tokens :: "token_values \<Rightarrow> string \<Rightarrow> string" where
  "scan_tokens v [] = []"
| "scan_tokens v (c # s) =
     (if prefix ''YYYY'' (c # s) then year_text v @ scan_tokens v (drop 4 (c # s))
      else if prefix ''YY'' (c # s) then year2_text v @ scan_tokens v (drop 2 (c # s))
      else if prefix ''MM'' (c # s) then month_text v @ scan_tokens v (drop 2 (c # s))
      else if prefix ''DD'' (c # s) then day_text v @ scan_tokens v (drop 2 (c # s))
      else if prefix ''HH'' (c # s) then hour_text v @ scan_tokens v (drop 2 (c # s))
      else if prefix ''mm'' (c # s) then minute_text v @ scan_tokens v (drop 2 (c # s))
      else if prefix ''ss'' (c # s) then second_text v @ scan_tokens v (drop 2 (c # s))
      else c # scan_tokens v s)"

text \<open>The components of the local time value \<open>lt\<close> (the instant shifted by the offset of
  the target timezone), as the formatter with the options of \<^verbatim>\<open>formatCustomDate\<close> prints
  them.\<close>

definition custom_values :: "runtime \<Rightarrow> int \<Rightarrow> token_values" where
  "custom_values rt lt =
     \<lparr>year_text = number_toString (era_year (YearFromTime lt)),
      year2_text = slice_last2 (number_toString (era_year (YearFromTime lt))),
      month_text = pad2 (MonthFromTime lt + 1),
      day_text = pad2 (DateFromTime lt),
      hour_text = pad2 (cycle_hour (hourCycle24 rt) (HourFromTime lt)),
      minute_text = pad2 (MinFromTime lt),
      second_text = pad2 (SecFromTime lt)\<rparr>"

text \<open>The time value of a date and a time of day in UTC: \<open>MakeDate (MakeDay \<dots>) (MakeTime \<dots>)\<close>
  of ECMA-262, with the month counted from 0.\<close>

definition days_before_month :: "int \<Rightarrow> int \<Rightarrow> int" where
  "days_before_month l m =
     (if m = 0 then 0 else if m = 1 then 31 else if m = 2 then 59 + l
      else if m = 3 then 90 + l else if m = 4 then 120 + l else if m = 5 then 151 + l
      else if m = 6 then 181 + l else if m = 7 then 212 + l else if m = 8 then 243 + l
      else if m = 9 then 273 + l else if m = 10 then 304 + l else 334 + l)"

definition utc_time_value :: "int \<Rightarrow> int \<Rightarrow> int \<Rightarrow> int \<Rightarrow> int \<Rightarrow> int \<Rightarrow> int \<Rightarrow> int" where
  "utc_time_value y m d h mn s ms =
     (DayFromYear y + days_before_month (if DaysInYear y = 366 then 1 else 0) m + d - 1) * msPerDay
     + h * msPerHour + mn * msPerMinute + s * msPerSecond + ms"

section \<open>Example hosts\<close>

text \<open>A database that knows UTC and Asia/Tokyo (nine hours ahead of UTC, no daylight
  saving time), and two hosts over it that differ in the hour cycle only.\<close>

definition example_tzdb :: "string \<Rightarrow> (int \<Rightarrow> int) option" where
  "example_tzdb tz =
     (if tz = ''UTC'' then Some (\<lambda>t. 0)
      else if tz = ''Asia/Tokyo'' then Some (\<lambda>t. 32400000)
      else None)"

definition example_host :: "hour_cycle \<Rightarrow> int \<Rightarrow> runtime" where
  "example_host hc now =
     \<lparr>env = (\<lambda>v. None), clock = now, hostTimeZone = ''UTC'', tzdb = example_tzdb,
      rangeErrorMessage = (\<lambda>tz. ''Invalid time zone specified: '' @ tz),
      hourCycle24 = hc, dayPeriodSpace = '' ''\<rparr>"

section \<open>Properties\<close>

subsection \<open>Decimal numerals\<close>

lemma small_cases: "0 \<le> n \<Longrightarrow> n < 10 \<Longrightarrow> n \<in> {0, 1, 2, 3, 4, 5, 6, 7, 8, 9::int}"
  by simp arith

lemma digit_val_digit_char: "0 \<le> n \<Longrightarrow> n < 10 \<Longrightarrow> digit_val (digit_char n) = Some n"
  using small_cases [of n] by (auto simp: digit_val_def digit_char_def)

lemma is_digit_digit_char: "0 \<le> n \<Longrightarrow> n < 10 \<Longrightarrow> is_digit (digit_char n)"
  using small_cases [of n] by (auto simp: is_digit_def digit_char_def)

lemma decimal_digits_small: "n < 10 \<Longrightarrow> decimal_digits n = [digit_char n]"
  by (simp add: decimal_digits.simps)

lemma decimal_digits_large:
  "10 \<le> n \<Longrightarrow> decimal_digits n = decimal_digits (n div 10) @ [digit_char (n mod 10)]"
  by (simp add: decimal_digits.simps)

lemma decimal_digits_nonempty: "decimal_digits n \<noteq> []"
  by (subst decimal_digits.simps) simp

lemma decimal_digits_is_digit: "0 \<le> n \<Longrightarrow> list_all is_digit (decimal_digits n)"
proof (induction n rule: decimal_digits.induct)
  case (1 n)
  show ?case
  proof (cases "n < 10")
    case True
    with "1.prems" show ?thesis by (simp add: decimal_digits_small is_digit_digit_char)
  next
    case False
    then have "list_all is_digit (decimal_digits (n div 10))" using "1.IH" "1.prems" by simp
    moreover have "is_digit (digit_char (n mod 10))" by (simp add: is_digit_digit_char)
    ultimately show ?thesis using False by (simp add: decimal_digits_large)
  qed
qed

lemma digits_value_append:
  "digits_value acc (xs @ ys) =
     (case digits_value acc xs of None \<Rightarrow> None | Some a \<Rightarrow> digits_value a ys)"
  by (induction xs arbitrary: acc) (auto split: option.splits)

lemma digits_value_decimal_digits: "0 \<le> n \<Longrightarrow> digits_value 0 (decimal_digits n) = Some n"
proof (induction n rule: decimal_digits.induct)
  case (1 n)
  show ?case
  proof (cases "n < 10")
    case True
    with "1.prems" show ?thesis by (simp add: decimal_digits_small digit_val_digit_char)
  next
    case False
    then have "digits_value 0 (decimal_digits (n div 10)) = Some (n div 10)"
      using "1.IH" "1.prems" by simp
    then show ?thesis using False
      by (simp add: decimal_digits_large digits_value_append digit_val_digit_char)
  qed
qed

lemma is_digit_not_minus: "is_digit c \<Longrightarrow> c \<noteq> CHR ''-''"
  by (auto simp: is_digit_def)

text \<open>A number is read back from its decimal string: different numbers have different
  strings.\<close>

lemma parse_number_toString: "parse_number (number_toString i) = Some i"
proof (cases "i < 0")
  case True
  then show ?thesis
    by (simp add: parse_number_def number_toString_def decimal_digits_nonempty
        digits_value_decimal_digits)
next
  case False
  then have d: "list_all is_digit (decimal_digits i)" by (simp add: decimal_digits_is_digit)
  obtain c cs where s: "decimal_digits i = c # cs"
    using decimal_digits_nonempty [of i] by (cases "decimal_digits i") auto
  with d have "c \<noteq> CHR ''-''" by (simp add: is_digit_not_minus)
  with False s show ?thesis
    using digits_value_decimal_digits [of i]
    by (simp add: parse_number_def number_toString_def)
qed

subsection \<open>The selectors that do not consult the timezone\<close>

lemma formatDateTime_iso: "formatDateTime rt date ''iso'' tz = Inr (toISOString date)"
  by (simp add: formatDateTime_def)

lemma formatDateTime_unix:
  "formatDateTime rt date ''unix'' tz = Inr (number_toString (date div 1000))"
  by (simp add: formatDateTime_def Math_floor_div_def)

lemma formatDateTime_unix_ms: "formatDateTime rt date ''unix_ms'' tz = Inr (number_toString date)"
  by (simp add: formatDateTime_def)

lemma floor_is_truncation:
  "((date::int) div 1000 = truncated_seconds date) = (0 \<le> date \<or> date mod 1000 = 0)"
proof (cases "date < 0")
  case True
  have "(- date) div 1000 = - (date div 1000) - (if date mod 1000 = 0 then 0 else 1)"
    by (simp add: zdiv_zminus1_eq_if)
  with True show ?thesis by (simp add: truncated_seconds_def)
next
  case False
  then show ?thesis by (simp add: truncated_seconds_def)
qed

lemma second_boundary: "(date::int) mod 1000 = 0 \<Longrightarrow> date = date div 1000 * 1000"
  by auto

text \<open>C2. A format selector outside the known enumeration does not fail: it gives the
  string the selector \<^verbatim>\<open>iso\<close> gives for the same instant, whatever the timezone.\<close>

theorem unknown_selector_falls_back_to_iso:
  assumes "format \<notin> known_selectors"
  shows "formatDateTime rt date format tz = formatDateTime rt date ''iso'' tz
         \<and> formatDateTime rt date format tz = Inr (toISOString date)"
  using assms by (simp add: formatDateTime_def known_selectors_def)

theorem unknown_selector_falls_back_to_iso_witness:
  "''bogus-value'' \<notin> known_selectors
   \<and> formatDateTime (example_host H24 0) 1705314600000 ''bogus-value'' ''Not/AZone''
       = formatDateTime (example_host H24 0) 1705314600000 ''iso'' ''Not/AZone''
   \<and> formatDateTime (example_host H24 0) 1705314600000 ''bogus-value'' ''Not/AZone''
       = Inr ''2024-01-15T10:30:00.000Z''"
proof -
  have k: "''bogus-value'' \<notin> known_selectors" by (simp add: known_selectors_def)
  have e: "toISOString 1705314600000 = ''2024-01-15T10:30:00.000Z''" by code_simp
  show ?thesis
    using k unknown_selector_falls_back_to_iso [OF k, of "example_host H24 0" 1705314600000 "''Not/AZone''"]
    by (auto simp add: e)
qed

text \<open>C4, as amended. The selector \<^verbatim>\<open>unix\<close> gives the decimal string of the floor of
  the millisecond count divided by 1000, rounding toward minus infinity. The floor is
  the truncation toward zero exactly for the instants at or after the epoch and the
  instants on a whole second.\<close>

theorem unix_selector_floors:
  "formatDateTime rt date ''unix'' tz = Inr (number_toString (date div 1000))
   \<and> parse_number (number_toString (date div 1000)) = Some (date div 1000)
   \<and> (date div 1000 = truncated_seconds date) = (0 \<le> date \<or> date mod 1000 = 0)"
  using floor_is_truncation [of date] by (simp add: formatDateTime_unix parse_number_toString)

text \<open>C4, as stated, fails one millisecond before the epoch: the program prints -1, the
  truncation toward zero is 0.\<close>

theorem unix_selector_truncation_counterexample:
  "formatDateTime (example_host H24 0) (- 1) ''unix'' ''UTC'' = Inr ''-1''
   \<and> number_toString (truncated_seconds (- 1)) = ''0''"
  by code_simp

text \<open>C5. The numbers printed by \<^verbatim>\<open>unix\<close> and \<^verbatim>\<open>unix_ms\<close> for one instant: the first
  is the floor of the second divided by 1000, and on a second boundary the second is
  1000 times the first.\<close>

theorem unix_and_unix_ms_agree:
  "\<exists>s m u n.
     formatDateTime rt date ''unix'' tz = Inr s \<and> formatDateTime rt date ''unix_ms'' tz = Inr m
     \<and> parse_number s = Some u \<and> parse_number m = Some n
     \<and> u = n div 1000 \<and> (date mod 1000 = 0 \<longrightarrow> n = u * 1000)"
  using second_boundary [of date]
  by (simp add: formatDateTime_unix formatDateTime_unix_ms parse_number_toString)

theorem unix_and_unix_ms_agree_witness:
  "\<exists>s m u n.
     formatDateTime (example_host H24 0) 1705314600000 ''unix'' ''UTC'' = Inr s
     \<and> formatDateTime (example_host H24 0) 1705314600000 ''unix_ms'' ''UTC'' = Inr m
     \<and> parse_number s = Some u \<and> parse_number m = Some n
     \<and> u = n div 1000 \<and> (1705314600000::int) mod 1000 = 0 \<and> n = u * 1000"
  using unix_and_unix_ms_agree [of "example_host H24 0" 1705314600000 "''UTC''"]
  by simp

text \<open>C10. The timestamp operation never fails. It gives the millisecond count when the
  unit is \<^verbatim>\<open>milliseconds\<close>, and for every other unit (absent, empty, \<^verbatim>\<open>seconds\<close> or
  any other string) the floor of the millisecond count divided by 1000.\<close>

theorem get_timestamp_units:
  "call_tool rt ''get_timestamp'' args =
     \<lparr>content = number_toString
                  (if arg args ''unit'' = Some ''milliseconds'' then clock rt else clock rt div 1000),
      isError = False\<rparr>"
  by (cases "arg args ''unit''")
     (simp_all add: call_tool_def get_timestamp_def or_default_def Math_floor_div_def Let_def)

subsection \<open>The configuration resolver\<close>

lemma resolve_field_or_default:
  "or_default per_call (or_default process_default builtin)
     = resolve_field per_call process_default builtin"
  by (simp add: or_default_def resolve_field_def split: option.splits)

text \<open>C6. The format and the timezone of a request are the value of the call when it is
  present and not empty, otherwise the default of the environment when it is set and not
  empty, otherwise \<^verbatim>\<open>iso\<close> and the timezone of the host; the template is the
  default of the environment or \<^verbatim>\<open>YYYY-MM-DD HH:mm:ss\<close>. These resolved values are
  what the handler formats with, and nothing is validated: any value of the call that
  is not empty is taken as it is.\<close>

theorem configuration_precedence:
  "effective_format rt args = resolve_field (arg args ''format'') (env rt ''DATETIME_FORMAT'') ''iso''
   \<and> effective_timezone rt args
       = resolve_field (arg args ''timezone'') (env rt ''TIMEZONE'') (hostTimeZone rt)
   \<and> DATE_FORMAT_STRING rt
       = resolve_field None (env rt ''DATE_FORMAT_STRING'') ''YYYY-MM-DD HH:mm:ss''
   \<and> call_tool rt ''get_current_time'' args
       = relay (formatDateTime rt (clock rt)
           (resolve_field (arg args ''format'') (env rt ''DATETIME_FORMAT'') ''iso'')
           (resolve_field (arg args ''timezone'') (env rt ''TIMEZONE'') (hostTimeZone rt)))
   \<and> (\<forall>v. v \<noteq> [] \<longrightarrow> arg args ''format'' = Some v \<longrightarrow> effective_format rt args = v)
   \<and> (\<forall>v. v \<noteq> [] \<longrightarrow> arg args ''timezone'' = Some v \<longrightarrow> effective_timezone rt args = v)"
  by (simp add: effective_format_def effective_timezone_def DATETIME_FORMAT_def TIMEZONE_def
      DATE_FORMAT_STRING_def call_tool_def get_current_time_def
      resolve_field_or_default [symmetric])
     (simp add: or_default_def)

theorem configuration_precedence_witness:
  "effective_format (example_host H24 0) (Some [''format'' \<mapsto> ''bogus-value'', ''timezone'' \<mapsto> ''Not/AZone''])
     = ''bogus-value''
   \<and> effective_timezone (example_host H24 0) (Some [''format'' \<mapsto> ''bogus-value'', ''timezone'' \<mapsto> ''Not/AZone''])
     = ''Not/AZone''
   \<and> effective_format (example_host H24 0) (Some [''format'' \<mapsto> []]) = ''iso''
   \<and> effective_timezone (example_host H24 0) None = ''UTC''"
  using configuration_precedence [of "example_host H24 0"
      "Some [''format'' \<mapsto> ''bogus-value'', ''timezone'' \<mapsto> ''Not/AZone'']"]
    configuration_precedence [of "example_host H24 0" "Some [''format'' \<mapsto> []]"]
    configuration_precedence [of "example_host H24 0" None]
  by (simp add: arg_def resolve_field_def example_host_def)

subsection \<open>Failures\<close>

lemma timeZone_options [simp]:
  "timeZone (human_options tz) = tz" "timeZone (date_options tz) = tz"
  "timeZone (time_options tz) = tz" "timeZone (custom_options tz) = tz"
  by (simp_all add: human_options_def date_options_def time_options_def custom_options_def
      no_options_def)

lemma formatToParts_unknown_zone:
  "tzdb rt (timeZone opts) = None \<Longrightarrow>
   formatToParts rt locale opts date = Inl (RangeError (rangeErrorMessage rt (timeZone opts)))"
  by (simp add: formatToParts_def)

lemma formatToParts_known_zone:
  "tzdb rt (timeZone opts) = Some offset \<Longrightarrow>
   formatToParts rt locale opts date =
     Inr (map (item_part (resolve_hourCycle rt opts) opts (date + offset date))
            (pattern_items rt locale opts))"
  by (simp add: formatToParts_def)

lemma toLocaleString_fails:
  "(\<exists>e. toLocaleString rt locale opts date = Inl e) = (tzdb rt (timeZone opts) = None)"
  by (cases "tzdb rt (timeZone opts)") (simp_all add: toLocaleString_def formatToParts_def)

lemma toLocaleString_error:
  "tzdb rt (timeZone opts) = None \<Longrightarrow>
   toLocaleString rt locale opts date = Inl (RangeError (rangeErrorMessage rt (timeZone opts)))"
  by (simp add: toLocaleString_def formatToParts_def)

lemma formatCustomDate_fails:
  "(\<exists>e. formatCustomDate rt date template tz = Inl e) = (tzdb rt tz = None)"
  by (cases "tzdb rt tz") (simp_all add: formatCustomDate_def formatToParts_def)

lemma formatCustomDate_error:
  "tzdb rt tz = None \<Longrightarrow>
   formatCustomDate rt date template tz = Inl (RangeError (rangeErrorMessage rt tz))"
  by (simp add: formatCustomDate_def formatToParts_def)

lemma formatDateTime_fails:
  "(\<exists>e. formatDateTime rt date format tz = Inl e) = (tzdb rt tz = None \<and> format \<in> zone_selectors)"
  by (simp add: formatDateTime_def zone_selectors_def toLocaleString_fails formatCustomDate_fails)

lemma formatDateTime_error:
  "tzdb rt tz = None \<Longrightarrow> format \<in> zone_selectors \<Longrightarrow>
   formatDateTime rt date format tz = Inl (RangeError (rangeErrorMessage rt tz))"
  by (auto simp add: formatDateTime_def zone_selectors_def toLocaleString_error
      formatCustomDate_error)

lemma isError_relay: "isError (relay r) = (\<exists>e. r = Inl e)"
  by (cases r) (auto simp: relay_def split: js_error.splits)

text \<open>C3. Formatting fails exactly when the timezone is not in the database of the host
  and the selector is one of \<^verbatim>\<open>human\<close>, \<^verbatim>\<open>date\<close>, \<^verbatim>\<open>time\<close> and \<^verbatim>\<open>custom\<close>. The
  handler then returns, with the error flag set, the message of the error behind the
  prefix \<^verbatim>\<open>Error formatting date:\<close>. The selectors \<^verbatim>\<open>iso\<close>, \<^verbatim>\<open>unix\<close> and
  \<^verbatim>\<open>unix_ms\<close> succeed whatever the timezone.\<close>

theorem formatting_fails_only_on_unknown_zone:
  "(\<exists>e. formatDateTime rt date format tz = Inl e) = (tzdb rt tz = None \<and> format \<in> zone_selectors)
   \<and> isError (relay (formatDateTime rt date format tz))
       = (tzdb rt tz = None \<and> format \<in> zone_selectors)
   \<and> (tzdb rt tz = None \<and> format \<in> zone_selectors \<longrightarrow>
         relay (formatDateTime rt date format tz)
           = \<lparr>content = ''Error formatting date: '' @ rangeErrorMessage rt tz, isError = True\<rparr>)
   \<and> (format \<in> {''iso'', ''unix'', ''unix_ms''} \<longrightarrow>
         (\<exists>s. formatDateTime rt date format tz = Inr s))
   \<and> isError (call_tool rt ''get_current_time'' args)
       = (tzdb rt (effective_timezone rt args) = None \<and> effective_format rt args \<in> zone_selectors)"
proof -
  have a: "(\<exists>e. formatDateTime rt date format tz = Inl e)
           = (tzdb rt tz = None \<and> format \<in> zone_selectors)"
    by (rule formatDateTime_fails)
  have b: "tzdb rt tz = None \<and> format \<in> zone_selectors \<longrightarrow>
         relay (formatDateTime rt date format tz)
           = \<lparr>content = ''Error formatting date: '' @ rangeErrorMessage rt tz, isError = True\<rparr>"
    by (simp add: formatDateTime_error relay_def)
  have c: "format \<in> {''iso'', ''unix'', ''unix_ms''} \<longrightarrow>
         (\<exists>s. formatDateTime rt date format tz = Inr s)"
    by (auto simp: formatDateTime_def)
  have d: "isError (call_tool rt ''get_current_time'' args)
       = (tzdb rt (effective_timezone rt args) = None \<and> effective_format rt args \<in> zone_selectors)"
    by (simp add: call_tool_def get_current_time_def isError_relay formatDateTime_fails)
  show ?thesis using a b c d by (simp add: isError_relay)
qed

theorem formatting_fails_only_on_unknown_zone_witness:
  "tzdb (example_host H24 0) ''Not/AZone'' = None \<and> ''time'' \<in> zone_selectors
   \<and> relay (formatDateTime (example_host H24 0) 1705314600000 ''time'' ''Not/AZone'')
       = \<lparr>content = ''Error formatting date: Invalid time zone specified: Not/AZone'',
          isError = True\<rparr>
   \<and> ''unix'' \<in> {''iso'', ''unix'', ''unix_ms''}
   \<and> (\<exists>s. formatDateTime (example_host H24 0) 1705314600000 ''unix'' ''Not/AZone'' = Inr s)"
  using formatting_fails_only_on_unknown_zone [of "example_host H24 0" 1705314600000 "''time''" "''Not/AZone''"]
    formatting_fails_only_on_unknown_zone [of "example_host H24 0" 1705314600000 "''unix''" "''Not/AZone''"]
  by (simp add: example_host_def example_tzdb_def zone_selectors_def)

text \<open>C9. Two \<^verbatim>\<open>custom\<close> requests to one host (one instant, one configuration) with the
  same timezone get the same answer, whatever else their arguments hold: the template is
  \<^verbatim>\<open>DATE_FORMAT_STRING\<close> of the process.\<close>

theorem custom_template_is_process_wide:
  assumes "effective_format rt args1 = ''custom''" and "effective_format rt args2 = ''custom''"
    and "effective_timezone rt args1 = effective_timezone rt args2"
  shows "call_tool rt ''get_current_time'' args1 = call_tool rt ''get_current_time'' args2
         \<and> call_tool rt ''get_current_time'' args1
             = relay (formatCustomDate rt (clock rt) (DATE_FORMAT_STRING rt)
                       (effective_timezone rt args1))"
  using assms by (simp add: call_tool_def get_current_time_def formatDateTime_def)

theorem custom_template_is_process_wide_witness:
  "effective_format (example_host H23 1705314600000)
       (Some [''format'' \<mapsto> ''custom'', ''timezone'' \<mapsto> ''UTC'', ''formatString'' \<mapsto> ''DD/MM/YYYY''])
     = ''custom''
   \<and> arg (Some [''format'' \<mapsto> ''custom'', ''timezone'' \<mapsto> ''UTC'', ''formatString'' \<mapsto> ''DD/MM/YYYY''])
         ''formatString''
       \<noteq> arg (Some [''format'' \<mapsto> ''custom'', ''timezone'' \<mapsto> ''UTC'']) ''formatString''
   \<and> call_tool (example_host H23 1705314600000) ''get_current_time''
         (Some [''format'' \<mapsto> ''custom'', ''timezone'' \<mapsto> ''UTC'', ''formatString'' \<mapsto> ''DD/MM/YYYY''])
       = call_tool (example_host H23 1705314600000) ''get_current_time''
           (Some [''format'' \<mapsto> ''custom'', ''timezone'' \<mapsto> ''UTC''])
   \<and> call_tool (example_host H23 1705314600000) ''get_current_time''
         (Some [''format'' \<mapsto> ''custom'', ''timezone'' \<mapsto> ''UTC''])
       = \<lparr>content = ''2024-01-15 10:30:00'', isError = False\<rparr>"
proof -
  let ?rt = "example_host H23 1705314600000"
  let ?a1 = "Some [''format'' \<mapsto> ''custom'', ''timezone'' \<mapsto> ''UTC'', ''formatString'' \<mapsto> ''DD/MM/YYYY'']"
  let ?a2 = "Some [''format'' \<mapsto> ''custom'', ''timezone'' \<mapsto> ''UTC'']"
  have f: "effective_format ?rt ?a1 = ''custom''" "effective_format ?rt ?a2 = ''custom''"
    by (simp_all add: effective_format_def arg_def or_default_def)
  have t: "effective_timezone ?rt ?a1 = effective_timezone ?rt ?a2"
    by (simp add: effective_timezone_def arg_def or_default_def)
  have d: "arg ?a1 ''formatString'' \<noteq> arg ?a2 ''formatString''" by (simp add: arg_def)
  have v: "call_tool ?rt ''get_current_time'' ?a2 = \<lparr>content = ''2024-01-15 10:30:00'', isError = False\<rparr>"
    by code_simp
  show ?thesis
    using custom_template_is_process_wide [OF f t] f d v by simp
qed

subsection \<open>The calendar\<close>

lemma est_upper: "d < DayFromYear (1970 + (400 * d) div 146097 + 2)"
proof -
  define q where "q = (400 * d) div 146097"
  define r where "r = (400 * d) mod 146097"
  define A where "A = (q + 3) div 4"
  define B where "B = (q + 71) div 100"
  define C where "C = (q + 371) div 400"
  have d: "400 * d = 146097 * q + r" and r: "r < 146097"
    by (simp_all add: q_def r_def)
  have a: "q \<le> 4 * A" unfolding A_def by linarith
  have b: "100 * B \<le> q + 71" unfolding B_def by linarith
  have c: "q - 28 \<le> 400 * C" unfolding C_def by linarith
  have e: "DayFromYear (1970 + q + 2) = 365 * (q + 2) + A - B + C"
    by (simp add: DayFromYear_def algebra_simps A_def B_def C_def)
  have "400 * d < 400 * (365 * (q + 2) + A - B + C)"
    using a b c d r by (simp add: algebra_simps)
  then have "d < 365 * (q + 2) + A - B + C" by simp
  then show ?thesis unfolding q_def [symmetric] e .
qed

lemma est_lower: "DayFromYear (1970 + (400 * d) div 146097 - 1) \<le> d"
proof -
  define q where "q = (400 * d) div 146097"
  define r where "r = (400 * d) mod 146097"
  define A where "A = q div 4"
  define B where "B = (q + 68) div 100"
  define C where "C = (q + 368) div 400"
  have d: "400 * d = 146097 * q + r" and r: "0 \<le> r"
    by (simp_all add: q_def r_def)
  have a: "4 * A \<le> q" unfolding A_def by linarith
  have b: "q - 31 \<le> 100 * B" unfolding B_def by linarith
  have c: "400 * C \<le> q + 368" unfolding C_def by linarith
  have e: "DayFromYear (1970 + q - 1) = 365 * (q - 1) + A - B + C"
    by (simp add: DayFromYear_def algebra_simps A_def B_def C_def)
  have "400 * (365 * (q - 1) + A - B + C) \<le> 400 * d"
    using a b c d r by (simp add: algebra_simps)
  then have "365 * (q - 1) + A - B + C \<le> d" by simp
  then show ?thesis unfolding q_def [symmetric] e .
qed

lemma YearFromTime_spec:
  "DayFromYear (YearFromTime t) \<le> Day t \<and> Day t < DayFromYear (YearFromTime t + 1)"
  using est_upper [of "Day t"] est_lower [of "Day t"]
  by (auto simp: YearFromTime_def Let_def add.commute)

lemma div_step: "0 < k \<Longrightarrow> ((x::int) + 1) div k = x div k + (if (x + 1) mod k = 0 then 1 else 0)"
proof -
  assume k: "0 < k"
  define q where "q = x div k"
  define r where "r = x mod k"
  have x: "x = k * q + r" and r: "0 \<le> r" "r < k" using k by (simp_all add: q_def r_def)
  show ?thesis
  proof (cases "r + 1 = k")
    case True
    then have "x + 1 = k * (q + 1)" using x by (simp add: algebra_simps)
    then have "(x + 1) div k = q + 1" "(x + 1) mod k = 0" using k by simp_all
    then show ?thesis by (simp add: q_def)
  next
    case False
    then have "x + 1 = k * q + (r + 1)" "0 \<le> r + 1" "r + 1 < k" using x r by simp_all
    then have "(x + 1) div k = q" "(x + 1) mod k = r + 1"
      using k by (metis div_mult_self2 div_pos_pos_trivial add.commute add_0 less_irrefl, 
                  metis mod_mult_self2 mod_pos_pos_trivial add.commute)
    then show ?thesis using r by (simp add: q_def)
  qed
qed

lemma shifted_mod:
  "((y::int) - 1968) mod 4 = 0 \<longleftrightarrow> y mod 4 = 0"
  "((y::int) - 1900) mod 100 = 0 \<longleftrightarrow> y mod 100 = 0"
  "((y::int) - 1600) mod 400 = 0 \<longleftrightarrow> y mod 400 = 0"
proof -
  have "(y + 4 * (- 492)) mod 4 = y mod 4" by (rule mod_mult_self2)
  then show "((y::int) - 1968) mod 4 = 0 \<longleftrightarrow> y mod 4 = 0" by simp
  have "(y + 100 * (- 19)) mod 100 = y mod 100" by (rule mod_mult_self2)
  then show "((y::int) - 1900) mod 100 = 0 \<longleftrightarrow> y mod 100 = 0" by simp
  have "(y + 400 * (- 4)) mod 400 = y mod 400" by (rule mod_mult_self2)
  then show "((y::int) - 1600) mod 400 = 0 \<longleftrightarrow> y mod 400 = 0" by simp
qed

lemma century_mods:
  "(y::int) mod 100 = 0 \<Longrightarrow> y mod 4 = 0"
  "(y::int) mod 400 = 0 \<Longrightarrow> y mod 100 = 0"
proof -
  have a: "(4::int) dvd 100" and b: "(100::int) dvd 400" by simp_all
  show "y mod 100 = 0 \<Longrightarrow> y mod 4 = 0"
    using dvd_trans [OF a, of y] by (simp add: mod_eq_0_iff_dvd)
  show "y mod 400 = 0 \<Longrightarrow> y mod 100 = 0"
    using dvd_trans [OF b, of y] by (simp add: mod_eq_0_iff_dvd)
qed

lemma DayFromYear_next: "DayFromYear (y + 1) = DayFromYear y + DaysInYear y"
proof -
  have a: "(y - 1968) div 4 = (y - 1969) div 4 + (if y mod 4 = 0 then 1 else 0)"
    using div_step [of 4 "y - 1969"] shifted_mod(1) [of y] by simp
  have b: "(y - 1900) div 100 = (y - 1901) div 100 + (if y mod 100 = 0 then 1 else 0)"
    using div_step [of 100 "y - 1901"] shifted_mod(2) [of y] by simp
  have c: "(y - 1600) div 400 = (y - 1601) div 400 + (if y mod 400 = 0 then 1 else 0)"
    using div_step [of 400 "y - 1601"] shifted_mod(3) [of y] by simp
  have "DayFromYear (y + 1) = 365 * (y - 1969) + (y - 1968) div 4 - (y - 1900) div 100 + (y - 1600) div 400"
    by (simp add: DayFromYear_def)
  also have "\<dots> = DayFromYear y + DaysInYear y"
    unfolding a b c using century_mods [of y]
    by (auto simp: DayFromYear_def DaysInYear_def)
  finally show ?thesis .
qed

lemma DayWithinYear_range:
  "0 \<le> DayWithinYear t \<and> DayWithinYear t < 365 + InLeapYear t"
proof -
  have "DaysInYear (YearFromTime t) = 365 + InLeapYear t"
    by (simp add: InLeapYear_def DaysInYear_def)
  then show ?thesis
    using YearFromTime_spec [of t] DayFromYear_next [of "YearFromTime t"]
    by (simp add: DayWithinYear_def)
qed

lemma InLeapYear_cases: "InLeapYear t = 0 \<or> InLeapYear t = 1"
  by (simp add: InLeapYear_def)

lemma MonthFromTime_range: "0 \<le> MonthFromTime t \<and> MonthFromTime t \<le> 11"
  by (simp add: MonthFromTime_def Let_def)

lemma DateFromTime_range: "1 \<le> DateFromTime t \<and> DateFromTime t \<le> 31"
  using DayWithinYear_range [of t] InLeapYear_cases [of t]
  by (auto simp: DateFromTime_def MonthFromTime_def Let_def split: if_splits)

lemma day_in_year: 
  "days_before_month (InLeapYear t) (MonthFromTime t) + DateFromTime t - 1 = DayWithinYear t"
  by (simp add: DateFromTime_def MonthFromTime_def Let_def days_before_month_def)

lemma time_of_day:
  "Day t * msPerDay + HourFromTime t * msPerHour + MinFromTime t * msPerMinute
     + SecFromTime t * msPerSecond + msFromTime t = t"
proof -
  define s where "s = t div 1000"
  define m where "m = s div 60"
  define h where "h = m div 60"
  have s: "t = 1000 * s + t mod 1000" by (simp add: s_def)
  have m: "s = 60 * m + s mod 60" by (simp add: m_def)
  have h: "m = 60 * h + m mod 60" by (simp add: h_def)
  have d: "h = 24 * (h div 24) + h mod 24" by simp
  have m': "t div 60000 = m" unfolding m_def s_def by (simp add: zdiv_zmult2_eq [symmetric])
  have h': "t div 3600000 = h" unfolding h_def m_def s_def by (simp add: zdiv_zmult2_eq [symmetric])
  have d': "t div 86400000 = h div 24" unfolding h_def m_def s_def by (simp add: zdiv_zmult2_eq [symmetric])
  have "h div 24 * 86400000 + h mod 24 * 3600000 + m mod 60 * 60000 + s mod 60 * 1000 + t mod 1000 = t"
    using s m h d by linarith
  then show ?thesis
    by (simp add: Day_def HourFromTime_def MinFromTime_def SecFromTime_def msFromTime_def
        msPerDay_def msPerHour_def msPerMinute_def msPerSecond_def m' h' d' s_def [symmetric])
qed

lemma time_ranges:
  "0 \<le> HourFromTime t \<and> HourFromTime t < 24 \<and> 0 \<le> MinFromTime t \<and> MinFromTime t < 60
   \<and> 0 \<le> SecFromTime t \<and> SecFromTime t < 60 \<and> 0 \<le> msFromTime t \<and> msFromTime t < 1000"
  by (simp add: HourFromTime_def MinFromTime_def SecFromTime_def msFromTime_def msPerSecond_def)

lemma utc_fields_denote_instant:
  "utc_time_value (YearFromTime t) (MonthFromTime t) (DateFromTime t) (HourFromTime t)
     (MinFromTime t) (SecFromTime t) (msFromTime t) = t"
proof -
  have "DayFromYear (YearFromTime t) + days_before_month (InLeapYear t) (MonthFromTime t)
          + DateFromTime t - 1 = Day t"
    using day_in_year [of t] by (simp add: DayWithinYear_def)
  then show ?thesis
    using time_of_day [of t] by (simp add: utc_time_value_def InLeapYear_def)
qed

text \<open>C8. The selector \<^verbatim>\<open>iso\<close> gives the same string for every timezone: the year,
  month, day, hour, minute, second and millisecond of the instant in UTC, which
  together denote the instant again, closed by the letter Z. For the instant
  2024-01-15T10:30:00.000Z the string is \<^verbatim>\<open>2024-01-15T10:30:00.000Z\<close>.\<close>

theorem iso_selector_is_utc:
  "formatDateTime rt date ''iso'' tz = formatDateTime rt date ''iso'' tz'
   \<and> formatDateTime rt date ''iso'' tz = Inr (toISOString date)
   \<and> (\<exists>y m d h mn s ms.
        toISOString date
          = iso_year y @ ''-'' @ pad2 (m + 1) @ ''-'' @ pad2 d @ ''T'' @ pad2 h @ '':'' @ pad2 mn
            @ '':'' @ pad2 s @ ''.'' @ pad_left 3 (number_toString ms) @ ''Z''
        \<and> utc_time_value y m d h mn s ms = date
        \<and> 0 \<le> m \<and> m \<le> 11 \<and> 1 \<le> d \<and> d \<le> 31 \<and> 0 \<le> h \<and> h < 24
        \<and> 0 \<le> mn \<and> mn < 60 \<and> 0 \<le> s \<and> s < 60 \<and> 0 \<le> ms \<and> ms < 1000)
   \<and> formatDateTime rt 1705314600000 ''iso'' tz = Inr ''2024-01-15T10:30:00.000Z''"
proof -
  have e: "toISOString 1705314600000 = ''2024-01-15T10:30:00.000Z''" by code_simp
  have "\<exists>y m d h mn s ms.
        toISOString date
          = iso_year y @ ''-'' @ pad2 (m + 1) @ ''-'' @ pad2 d @ ''T'' @ pad2 h @ '':'' @ pad2 mn
            @ '':'' @ pad2 s @ ''.'' @ pad_left 3 (number_toString ms) @ ''Z''
        \<and> utc_time_value y m d h mn s ms = date
        \<and> 0 \<le> m \<and> m \<le> 11 \<and> 1 \<le> d \<and> d \<le> 31 \<and> 0 \<le> h \<and> h < 24
        \<and> 0 \<le> mn \<and> mn < 60 \<and> 0 \<le> s \<and> s < 60 \<and> 0 \<le> ms \<and> ms < 1000"
    apply (rule exI [of _ "YearFromTime date"], rule exI [of _ "MonthFromTime date"],
        rule exI [of _ "DateFromTime date"], rule exI [of _ "HourFromTime date"],
        rule exI [of _ "MinFromTime date"], rule exI [of _ "SecFromTime date"],
        rule exI [of _ "msFromTime date"])
    using utc_fields_denote_instant [of date] MonthFromTime_range [of date]
      DateFromTime_range [of date] time_ranges [of date]
    by (simp add: toISOString_def)
  then show ?thesis by (simp add: formatDateTime_iso e)
qed

subsection \<open>Global replacement\<close>

lemma GetSubstitution_plain:
  "CHR ''$'' \<notin> set r \<Longrightarrow> GetSubstitution m pre post r = r"
proof (induction m pre post r rule: GetSubstitution.induct)
  case (3 matched pre post c c' r)
  then have "c \<noteq> CHR ''$''" and "CHR ''$'' \<notin> set (c' # r)" by auto
  with 3 show ?case by simp
qed simp_all

lemma is_digit_not_dollar: "is_digit c \<Longrightarrow> c \<noteq> CHR ''$''"
  by (auto simp: is_digit_def)

lemma digits_no_dollar: "digits r \<Longrightarrow> CHR ''$'' \<notin> set r"
  using is_digit_not_dollar by (auto simp: digits_def list_all_iff)

lemma replace_from_pre:
  "CHR ''$'' \<notin> set r \<Longrightarrow> replace_from p r pre s = replace_from p r pre' s"
proof (induction "length s" arbitrary: s pre pre' rule: less_induct)
  case less
  show ?case
  proof (cases s)
    case Nil
    then show ?thesis by simp
  next
    case (Cons c t)
    show ?thesis
    proof (cases "p \<noteq> [] \<and> prefix p (c # t)")
      case True
      then have "length (drop (length p) (c # t)) < length s" using Cons by (cases p) auto
      then have "replace_from p r (pre @ p) (drop (length p) (c # t))
                 = replace_from p r (pre' @ p) (drop (length p) (c # t))"
        using less by blast
      then show ?thesis using True Cons less.prems by (simp add: GetSubstitution_plain)
    next
      case False
      have "replace_from p r (pre @ [c]) t = replace_from p r (pre' @ [c]) t"
        using less Cons by simp
      then show ?thesis using False Cons by auto
    qed
  qed
qed

lemma replace_nil [simp]: "replace_global p r [] = []"
  by (simp add: replace_global_def)

lemma replace_miss:
  "digits r \<Longrightarrow> \<not> prefix p (c # s) \<Longrightarrow> replace_global p r (c # s) = c # replace_global p r s"
  using replace_from_pre [OF digits_no_dollar, of r p "[c]" s "[]"]
  by (simp add: replace_global_def)

lemma replace_hit:
  "digits r \<Longrightarrow> p \<noteq> [] \<Longrightarrow> replace_global p r (p @ s) = r @ replace_global p r s"
  using replace_from_pre [OF digits_no_dollar, of r p p s "[]"]
  by (cases p) (simp_all add: replace_global_def GetSubstitution_plain digits_no_dollar)

lemma replace_skip:
  "digits r \<Longrightarrow> p \<noteq> [] \<Longrightarrow> hd p \<notin> set d \<Longrightarrow> replace_global p r (d @ s) = d @ replace_global p r s"
proof (induction d)
  case Nil
  then show ?case by simp
next
  case (Cons a d)
  then have "\<not> prefix p (a # d @ s)" by (cases p) auto
  with Cons show ?case by (simp add: replace_miss)
qed

lemma replace_head:
  assumes "digits r" "p \<noteq> []" "\<not> is_digit l" "\<not> prefix [l] s"
  shows "\<not> prefix [l] (replace_global p r s)"
proof (cases s)
  case Nil
  then show ?thesis by simp
next
  case (Cons c t)
  show ?thesis
  proof (cases "prefix p (c # t)")
    case True
    then obtain u where u: "c # t = p @ u" by (auto simp: prefix_def)
    obtain a b where r: "r = a # b" and a: "is_digit a"
      using assms(1) by (cases r) (auto simp: digits_def)
    have "replace_global p r s = r @ replace_global p r u"
      using replace_hit [OF assms(1,2), of u] u Cons by simp
    then show ?thesis using r a assms(3) by auto
  next
    case False
    then have "replace_global p r s = c # replace_global p r t"
      using Cons assms(1) by (simp add: replace_miss)
    then show ?thesis using assms(4) Cons by simp
  qed
qed


subsection \<open>The seven replacements are one scan\<close>

lemma replace_hit2:
  "digits r \<Longrightarrow> replace_global [a, b] r (a # b # s) = r @ replace_global [a, b] r s"
  using replace_hit [of r "[a, b]" s] by simp

lemma replace_hit4:
  "digits r \<Longrightarrow>
   replace_global [a, b, c, d] r (a # b # c # d # s) = r @ replace_global [a, b, c, d] r s"
  using replace_hit [of r "[a, b, c, d]" s] by simp

lemma replace_skip_digits:
  "digits r \<Longrightarrow> digits d \<Longrightarrow> \<not> is_digit (hd p) \<Longrightarrow> p \<noteq> [] \<Longrightarrow>
   replace_global p r (d @ s) = d @ replace_global p r s"
  by (rule replace_skip) (auto simp: digits_def list_all_iff)

lemma letters_not_digits [simp]:
  "\<not> is_digit CHR ''Y''" "\<not> is_digit CHR ''M''" "\<not> is_digit CHR ''D''"
  "\<not> is_digit CHR ''H''" "\<not> is_digit CHR ''m''" "\<not> is_digit CHR ''s''"
  by (simp_all add: is_digit_def)

lemma passes_are_scan:
  assumes y: "digits y" and y2: "digits y2" and m: "digits m" and d: "digits d"
    and h: "digits h" and n: "digits n" and e: "digits e"
  shows "replace_global ''ss'' e (replace_global ''mm'' n (replace_global ''HH'' h
           (replace_global ''DD'' d (replace_global ''MM'' m (replace_global ''YY'' y2
             (replace_global ''YYYY'' y s))))))
         = scan_tokens \<lparr>year_text = y, year2_text = y2, month_text = m, day_text = d, hour_text = h, minute_text = n, second_text = e\<rparr> s"
proof -
  define F where "F t = replace_global ''ss'' e (replace_global ''mm'' n (replace_global ''HH'' h
           (replace_global ''DD'' d (replace_global ''MM'' m (replace_global ''YY'' y2
             (replace_global ''YYYY'' y t))))))" for t
  define v where "v = \<lparr>year_text = y, year2_text = y2, month_text = m, day_text = d, hour_text = h, minute_text = n, second_text = e\<rparr>"
  note dg = y y2 m d h n e
  have F_Y4: "F (''YYYY'' @ t) = y @ F t" for t
    unfolding F_def using dg by (simp add: replace_hit4 replace_skip_digits)
  have F_Y2: "F (''YY'' @ t) = y2 @ F t" if "\<not> prefix ''YY'' t" for t
  proof -
    have "\<not> prefix ''YYY'' t" using that append_prefixD [of "''YY''" "''Y''" t] by auto
    with that show ?thesis
      unfolding F_def using dg by (simp add: replace_miss replace_hit2 replace_skip_digits)
  qed
  have F_M: "F (''MM'' @ t) = m @ F t" for t
    unfolding F_def using dg by (simp add: replace_miss replace_hit2 replace_skip_digits)
  have F_D: "F (''DD'' @ t) = d @ F t" for t
    unfolding F_def using dg by (simp add: replace_miss replace_hit2 replace_skip_digits)
  have F_H: "F (''HH'' @ t) = h @ F t" for t
    unfolding F_def using dg by (simp add: replace_miss replace_hit2 replace_skip_digits)
  have F_m: "F (''mm'' @ t) = n @ F t" for t
    unfolding F_def using dg by (simp add: replace_miss replace_hit2 replace_skip_digits)
  have F_s: "F (''ss'' @ t) = e @ F t" for t
    unfolding F_def using dg by (simp add: replace_miss replace_hit2 replace_skip_digits)
  have F_nil: "F [] = []" by (simp add: F_def)
  have F_other: "F (c # t) = c # F t"
    if no: "\<not> prefix ''YYYY'' (c # t)" "\<not> prefix ''YY'' (c # t)" "\<not> prefix ''MM'' (c # t)"
       "\<not> prefix ''DD'' (c # t)" "\<not> prefix ''HH'' (c # t)" "\<not> prefix ''mm'' (c # t)"
       "\<not> prefix ''ss'' (c # t)" for c t
  proof -
    define K where "K x = (\<forall>l \<in> set ''YMDHms''. c = l \<longrightarrow> \<not> prefix [l] x)" for x
    have K0: "K t" using no by (auto simp: K_def)
    have keep: "K (replace_global p r x)" if "K x" "digits r" "p \<noteq> []" for p r x
      unfolding K_def
    proof (intro ballI impI)
      fix l assume l: "l \<in> set ''YMDHms''" "c = l"
      then have "\<not> is_digit l" by auto
      moreover have "\<not> prefix [l] x" using that(1) l unfolding K_def by blast
      ultimately show "\<not> prefix [l] (replace_global p r x)"
        using that(2,3) by (simp add: replace_head)
    qed
    have step2: "replace_global [l, l] r (c # x) = c # replace_global [l, l] r x"
      if "K x" "digits r" "l \<in> set ''YMDHms''" for l r x
    proof -
      have "\<not> prefix [l, l] (c # x)" using that(1,3) by (auto simp: K_def)
      then show ?thesis using that(2) by (simp add: replace_miss)
    qed
    have step4: "replace_global ''YYYY'' r (c # t) = c # replace_global ''YYYY'' r t"
      if "digits r" for r
      using no(1) that by (simp add: replace_miss)
    let ?x1 = "replace_global ''YYYY'' y t"
    let ?x2 = "replace_global ''YY'' y2 ?x1"
    let ?x3 = "replace_global ''MM'' m ?x2"
    let ?x4 = "replace_global ''DD'' d ?x3"
    let ?x5 = "replace_global ''HH'' h ?x4"
    let ?x6 = "replace_global ''mm'' n ?x5"
    have K1: "K ?x1" using keep [OF K0 y] by simp
    have K2: "K ?x2" using keep [OF K1 y2] by simp
    have K3: "K ?x3" using keep [OF K2 m] by simp
    have K4: "K ?x4" using keep [OF K3 d] by simp
    have K5: "K ?x5" using keep [OF K4 h] by simp
    have K6: "K ?x6" using keep [OF K5 n] by simp
    show ?thesis
      unfolding F_def
      using step4 [OF y] step2 [OF K1 y2, of "CHR ''Y''"] step2 [OF K2 m, of "CHR ''M''"]
        step2 [OF K3 d, of "CHR ''D''"] step2 [OF K4 h, of "CHR ''H''"]
        step2 [OF K5 n, of "CHR ''m''"] step2 [OF K6 e, of "CHR ''s''"]
      by simp
  qed
  have "F s = scan_tokens v s"
  proof (induction "length s" arbitrary: s rule: less_induct)
    case less
    show ?case
    proof (cases s)
      case Nil
      then show ?thesis by (simp add: F_nil)
    next
      case (Cons c t)
      have hit: "F s = r @ F u \<Longrightarrow> scan_tokens v s = r @ scan_tokens v u \<Longrightarrow>
                 length u < length s \<Longrightarrow> F s = scan_tokens v s" for r u
        using less by simp
      consider (Y4) "prefix ''YYYY'' s"
        | (Y2) "\<not> prefix ''YYYY'' s" "prefix ''YY'' s"
        | (M) "prefix ''MM'' s" | (D) "prefix ''DD'' s" | (H) "prefix ''HH'' s"
        | (m) "prefix ''mm'' s" | (s) "prefix ''ss'' s"
        | (other) "\<not> prefix ''YYYY'' s" "\<not> prefix ''YY'' s" "\<not> prefix ''MM'' s"
            "\<not> prefix ''DD'' s" "\<not> prefix ''HH'' s" "\<not> prefix ''mm'' s" "\<not> prefix ''ss'' s"
        by blast
      then show ?thesis
      proof cases
        case Y4
        then obtain u where u: "s = ''YYYY'' @ u" by (auto simp: prefix_def)
        show ?thesis
          by (rule hit [of y u]) (simp_all add: u F_Y4 [simplified] v_def)
      next
        case Y2
        then obtain u where u: "s = ''YY'' @ u" by (auto simp: prefix_def)
        with Y2 have n: "\<not> prefix ''YY'' u" by simp
        show ?thesis
          by (rule hit [of y2 u]) (simp_all add: u n F_Y2 [OF n, simplified] v_def)
      next
        case M
        then obtain u where u: "s = ''MM'' @ u" by (auto simp: prefix_def)
        show ?thesis
          by (rule hit [of m u]) (simp_all add: u F_M [simplified] v_def)
      next
        case D
        then obtain u where u: "s = ''DD'' @ u" by (auto simp: prefix_def)
        show ?thesis
          by (rule hit [of d u]) (simp_all add: u F_D [simplified] v_def)
      next
        case H
        then obtain u where u: "s = ''HH'' @ u" by (auto simp: prefix_def)
        show ?thesis
          by (rule hit [of h u]) (simp_all add: u F_H [simplified] v_def)
      next
        case m
        then obtain u where u: "s = ''mm'' @ u" by (auto simp: prefix_def)
        show ?thesis
          by (rule hit [of n u]) (simp_all add: u F_m [simplified] v_def)
      next
        case s
        then obtain u where u: "s = ''ss'' @ u" by (auto simp: prefix_def)
        show ?thesis
          by (rule hit [of e u]) (simp_all add: u F_s [simplified] v_def)
      next
        case other
        have "F t = scan_tokens v t" using less Cons by simp
        moreover have "F (c # t) = c # F t" using other unfolding Cons by (rule F_other)
        moreover have "scan_tokens v (c # t) = c # scan_tokens v t"
          using other unfolding Cons by (subst scan_tokens.simps) (simp only: if_False)
        ultimately show ?thesis using Cons by simp
      qed
    qed
  qed
  then show ?thesis by (simp add: F_def v_def)
qed


subsection \<open>The custom formatter\<close>

lemma digits_number_toString: "0 \<le> n \<Longrightarrow> digits (number_toString n)"
  by (simp add: digits_def number_toString_def decimal_digits_nonempty decimal_digits_is_digit)

lemma is_digit_zero: "is_digit CHR ''0''"
  by (simp add: is_digit_def)

lemma two_digits_pad2: "0 \<le> n \<Longrightarrow> n < 100 \<Longrightarrow> two_digits (pad2 n)"
proof (cases "n < 10")
  case True
  assume "0 \<le> n"
  with True show ?thesis
    by (simp add: two_digits_def pad2_def pad_left_def number_toString_def decimal_digits_small
        is_digit_digit_char is_digit_zero)
next
  case False
  assume n: "0 \<le> n" "n < 100"
  with False have "decimal_digits n = [digit_char (n div 10), digit_char (n mod 10)]"
    by (simp add: decimal_digits_large decimal_digits_small)
  with n False show ?thesis
    by (simp add: two_digits_def pad2_def pad_left_def number_toString_def is_digit_digit_char)
qed

lemma two_digits_digits: "two_digits s \<Longrightarrow> digits s"
  by (auto simp: two_digits_def digits_def)

lemma digits_slice_last2: "digits s \<Longrightarrow> digits (slice_last2 s)"
proof -
  assume d: "digits s"
  then have "length s - 2 < length s" by (cases s) (auto simp: digits_def)
  then have "drop (length s - 2) s \<noteq> []" by simp
  moreover have "set (drop (length s - 2) s) \<subseteq> set s" by (rule set_drop_subset)
  ultimately show ?thesis using d by (auto simp: digits_def slice_last2_def list_all_iff)
qed

lemma era_year_positive: "1 \<le> era_year y"
  by (simp add: era_year_def)

lemma cycle_hour_range: "0 \<le> h \<Longrightarrow> h < 24 \<Longrightarrow> 0 \<le> cycle_hour hc h \<and> cycle_hour hc h \<le> 24"
proof -
  assume h: "0 \<le> h" "h < 24"
  have "h mod 12 \<le> 24" using pos_mod_bound [of 12 h] by linarith
  with h show ?thesis by (cases hc) (simp_all add: cycle_hour_def)
qed

lemma two_digit_fields:
  "(MonthFromTime lt + 1) mod 100 = MonthFromTime lt + 1"
  "DateFromTime lt mod 100 = DateFromTime lt"
  "cycle_hour hc (HourFromTime lt) mod 100 = cycle_hour hc (HourFromTime lt)"
  using MonthFromTime_range [of lt] DateFromTime_range [of lt] time_ranges [of lt]
    cycle_hour_range [of "HourFromTime lt" hc]
  by simp_all

lemma custom_parts:
  assumes "tzdb rt tz = Some offset"
  shows "\<exists>parts. formatToParts rt ''en-US'' (custom_options tz) date = Inr parts
     \<and> partsMap_of parts ''year'' = Some (year_text (custom_values rt (date + offset date)))
     \<and> partsMap_of parts ''month'' = Some (month_text (custom_values rt (date + offset date)))
     \<and> partsMap_of parts ''day'' = Some (day_text (custom_values rt (date + offset date)))
     \<and> partsMap_of parts ''hour'' = Some (hour_text (custom_values rt (date + offset date)))
     \<and> partsMap_of parts ''minute'' = Some (minute_text (custom_values rt (date + offset date)))
     \<and> partsMap_of parts ''second'' = Some (second_text (custom_values rt (date + offset date)))"
  using assms
  by (simp add: formatToParts_def custom_options_def no_options_def pattern_items_def
      date_items_def time_items_def resolve_hourCycle_def item_part_def field_type_def
      field_text_def numeric_text_def partsMap_of_def custom_values_def Let_def
      two_digit_fields)

lemma custom_values_digits:
  "digits (year_text (custom_values rt lt)) \<and> digits (year2_text (custom_values rt lt))
   \<and> two_digits (month_text (custom_values rt lt)) \<and> two_digits (day_text (custom_values rt lt))
   \<and> two_digits (hour_text (custom_values rt lt)) \<and> two_digits (minute_text (custom_values rt lt))
   \<and> two_digits (second_text (custom_values rt lt))"
  using MonthFromTime_range [of lt] DateFromTime_range [of lt] time_ranges [of lt]
    cycle_hour_range [of "HourFromTime lt" "hourCycle24 rt"] era_year_positive [of "YearFromTime lt"]
  by (simp add: custom_values_def digits_number_toString digits_slice_last2 two_digits_pad2)

lemma digits_or_default: "digits v \<Longrightarrow> or_default (Some v) [] = v"
  by (simp add: or_default_def digits_def)

lemma substitute_tokens_scan:
  assumes "pm ''year'' = Some (year_text v)" "pm ''month'' = Some (month_text v)" "pm ''day'' = Some (day_text v)"
    "pm ''hour'' = Some (hour_text v)" "pm ''minute'' = Some (minute_text v)" "pm ''second'' = Some (second_text v)"
    and "year2_text v = slice_last2 (year_text v)"
    and "digits (year_text v)" "digits (year2_text v)" "digits (month_text v)" "digits (day_text v)" "digits (hour_text v)"
      "digits (minute_text v)" "digits (second_text v)"
  shows "substitute_tokens pm template = scan_tokens v template"
proof -
  have "scan_tokens \<lparr>year_text = year_text v, year2_text = year2_text v, month_text = month_text v, day_text = day_text v, hour_text = hour_text v, minute_text = minute_text v,
          second_text = second_text v\<rparr> template = scan_tokens v template"
    by (cases v) simp
  then show ?thesis
    using assms passes_are_scan [of "year_text v" "year2_text v" "month_text v" "day_text v" "hour_text v" "minute_text v" "second_text v" template]
    by (simp add: substitute_tokens_def digits_or_default)
qed

lemma length_decimal_digits:
  "0 \<le> n \<Longrightarrow> (length (decimal_digits n) \<le> Suc k) = (n < 10 ^ Suc k)"
proof (induction k arbitrary: n)
  case 0
  show ?case
  proof (cases "n < 10")
    case True
    then show ?thesis by (simp add: decimal_digits_small)
  next
    case False
    then show ?thesis
      using decimal_digits_nonempty [of "n div 10"] by (simp add: decimal_digits_large)
  qed
next
  case (Suc k)
  show ?case
  proof (cases "n < 10")
    case True
    have "(1::int) \<le> 10 ^ Suc k" by (rule one_le_power) simp
    then have "n < 10 ^ Suc (Suc k)" using True by simp
    then show ?thesis using True by (simp add: decimal_digits_small)
  next
    case False
    then have "(length (decimal_digits (n div 10)) \<le> Suc k) = (n div 10 < 10 ^ Suc k)"
      using Suc.IH [of "n div 10"] Suc.prems by simp
    moreover have "(n div 10 < 10 ^ Suc k) = (n < 10 ^ Suc (Suc k))"
    proof -
      define M :: int where "M = 10 ^ Suc k"
      have "n = 10 * (n div 10) + n mod 10" "0 \<le> n mod 10" "n mod 10 < 10" by simp_all
      then have "(n div 10 < M) = (n < 10 * M)" by linarith
      then show ?thesis by (simp add: M_def)
    qed
    ultimately show ?thesis using False by (simp add: decimal_digits_large)
  qed
qed

lemma year_length:
  "(length (year_text (custom_values rt lt)) = 4)
     = (1000 \<le> era_year (YearFromTime lt) \<and> era_year (YearFromTime lt) \<le> 9999)"
proof -
  define n where "n = era_year (YearFromTime lt)"
  have n: "0 \<le> n" using era_year_positive [of "YearFromTime lt"] by (simp add: n_def)
  have a: "(length (decimal_digits n) \<le> 4) = (n < 10000)"
    using length_decimal_digits [OF n, of 3] by (simp add: eval_nat_numeral)
  have b: "(length (decimal_digits n) \<le> 3) = (n < 1000)"
    using length_decimal_digits [OF n, of 2] by (simp add: eval_nat_numeral)
  have "(length (decimal_digits n) = 4) = (1000 \<le> n \<and> n \<le> 9999)"
    using a b by linarith
  then show ?thesis using n by (simp add: custom_values_def number_toString_def n_def)
qed

text \<open>C1, as amended. For a timezone the database knows, the custom formatter replaces
  the tokens of the template as one scan from left to right does, the token
  \<^verbatim>\<open>YYYY\<close> before \<^verbatim>\<open>YY\<close>, and leaves every other character as it is. The
  components are those of the instant in the target timezone: the month, the day, the
  hour, the minute and the second have two digits; the year is printed with all its
  digits, which are four exactly for the years 1000 to 9999; \<^verbatim>\<open>YY\<close> stands for the
  last two characters of the year.\<close>

theorem custom_formatter_substitutes_tokens:
  assumes "tzdb rt tz = Some offset"
  shows "formatCustomDate rt date template tz
           = Inr (scan_tokens (custom_values rt (date + offset date)) template)
         \<and> digits (year_text (custom_values rt (date + offset date)))
         \<and> (length (year_text (custom_values rt (date + offset date))) = 4)
             = (1000 \<le> era_year (YearFromTime (date + offset date))
                \<and> era_year (YearFromTime (date + offset date)) \<le> 9999)
         \<and> year2_text (custom_values rt (date + offset date))
             = slice_last2 (year_text (custom_values rt (date + offset date)))
         \<and> two_digits (month_text (custom_values rt (date + offset date)))
         \<and> two_digits (day_text (custom_values rt (date + offset date)))
         \<and> two_digits (hour_text (custom_values rt (date + offset date)))
         \<and> two_digits (minute_text (custom_values rt (date + offset date)))
         \<and> two_digits (second_text (custom_values rt (date + offset date)))"
proof -
  define v where "v = custom_values rt (date + offset date)"
  obtain parts where p: "formatToParts rt ''en-US'' (custom_options tz) date = Inr parts"
    and pm: "partsMap_of parts ''year'' = Some (year_text v)" "partsMap_of parts ''month'' = Some (month_text v)"
      "partsMap_of parts ''day'' = Some (day_text v)" "partsMap_of parts ''hour'' = Some (hour_text v)"
      "partsMap_of parts ''minute'' = Some (minute_text v)" "partsMap_of parts ''second'' = Some (second_text v)"
    using custom_parts [OF assms, of date] unfolding v_def by blast
  have dg: "digits (year_text v)" "digits (year2_text v)" "two_digits (month_text v)" "two_digits (day_text v)"
    "two_digits (hour_text v)" "two_digits (minute_text v)" "two_digits (second_text v)"
    using custom_values_digits [of rt "date + offset date"] by (simp_all add: v_def)
  have y2: "year2_text v = slice_last2 (year_text v)" by (simp add: v_def custom_values_def)
  have "substitute_tokens (partsMap_of parts) template = scan_tokens v template"
    using pm y2 dg by (intro substitute_tokens_scan) (simp_all add: two_digits_digits)
  then have "formatCustomDate rt date template tz = Inr (scan_tokens v template)"
    using p by (simp add: formatCustomDate_def)
  then show ?thesis
    using dg y2 year_length [of rt "date + offset date"] unfolding v_def by simp
qed

theorem custom_formatter_substitutes_tokens_witness:
  "tzdb (example_host H23 0) ''Asia/Tokyo'' \<noteq> None
   \<and> formatCustomDate (example_host H23 0) 1705314600000 ''YYYY/MM/DD HH:mm (YY) week'' ''Asia/Tokyo''
       = Inr ''2024/01/15 19:30 (24) week''"
proof -
  have z: "tzdb (example_host H23 0) ''Asia/Tokyo'' = Some (\<lambda>t. 32400000)"
    by (simp add: example_host_def example_tzdb_def)
  have e: "scan_tokens (custom_values (example_host H23 0) (1705314600000 + 32400000))
             ''YYYY/MM/DD HH:mm (YY) week'' = ''2024/01/15 19:30 (24) week''"
    by code_simp
  show ?thesis
    using custom_formatter_substitutes_tokens [OF z, of 1705314600000 "''YYYY/MM/DD HH:mm (YY) week''"] z e
    by simp
qed

text \<open>C1, as stated, fails at the first instant of the year 10000, a time value a
  \<^verbatim>\<open>Date\<close> can hold: the year has five digits.\<close>

theorem custom_year_counterexample:
  "tzdb (example_host H23 0) ''UTC'' \<noteq> None
   \<and> toISOString 253402300800000 = ''+010000-01-01T00:00:00.000Z''
   \<and> formatCustomDate (example_host H23 0) 253402300800000 ''YYYY'' ''UTC'' = Inr ''10000''"
proof -
  have "tzdb (example_host H23 0) ''UTC'' \<noteq> None"
    by (simp add: example_host_def example_tzdb_def)
  moreover have "toISOString 253402300800000 = ''+010000-01-01T00:00:00.000Z''"
    by code_simp
  moreover have "formatCustomDate (example_host H23 0) 253402300800000 ''YYYY'' ''UTC'' = Inr ''10000''"
    by code_simp
  ultimately show ?thesis by simp
qed

text \<open>C7. On a host that resolves \<^verbatim>\<open>hour12: false\<close> to the cycle h24 the hour of
  midnight is printed as 24, by the custom formatter and by the selector \<^verbatim>\<open>time\<close>.\<close>

theorem custom_hour_at_midnight:
  "toISOString 1705276800000 = ''2024-01-15T00:00:00.000Z''
   \<and> formatCustomDate (example_host H24 0) 1705276800000 ''HH'' ''UTC'' = Inr ''24''
   \<and> formatDateTime (example_host H24 0) 1705276800000 ''time'' ''UTC'' = Inr ''24:00:00''"
  by code_simp

text \<open>On a host that resolves it to h23 the hour is between 00 and 23.\<close>

lemma custom_hour_h23:
  "hourCycle24 rt = H23 \<Longrightarrow>
   hour_text (custom_values rt lt) = pad2 (HourFromTime lt) \<and> 0 \<le> HourFromTime lt \<and> HourFromTime lt \<le> 23"
  using time_ranges [of lt] by (simp add: custom_values_def cycle_hour_def)

lemma custom_hour_h24:
  "hourCycle24 rt = H24 \<Longrightarrow> HourFromTime lt = 0 \<Longrightarrow> hour_text (custom_values rt lt) = ''24''"
  by (simp add: custom_values_def cycle_hour_def) code_simp

subsection \<open>The scenarios of the specification\<close>

lemma scenarios:
  "formatDateTime (example_host H23 0) 1705314600000 ''unix'' ''UTC'' = Inr ''1705314600''"
  "formatDateTime (example_host H23 0) 1705314600000 ''unix_ms'' ''UTC'' = Inr ''1705314600000''"
  "formatDateTime (example_host H23 0) 1705314600000 ''date'' ''UTC'' = Inr ''2024-01-15''"
  "formatDateTime (example_host H23 0) 1705314600000 ''time'' ''UTC'' = Inr ''10:30:00''"
  "formatDateTime (example_host H23 0) 1705314600000 ''human'' ''UTC''
     = Inr ''Mon, Jan 15, 2024, 10:30:00 AM''"
  "formatCustomDate (example_host H23 0) 1705314600000 ''YYYY/MM/DD HH:mm'' ''UTC''
     = Inr ''2024/01/15 10:30''"
  by code_simp+

text \<open>Sanity of the model at the instant the specification uses in its scenarios.\<close>

lemma toISOString_example: "toISOString 1705314600000 = ''2024-01-15T10:30:00.000Z''"
  by code_simp

end
